theory Spec2Isabelle
  imports Main "HOL-Library.Multiset"
begin

section \<open>The session store of the playground (\<open>filesReducer\<close>)\<close>

text \<open>
  The playground keeps its files in a reducer state \<open>FilesState\<close>. A \<open>FileId\<close> and the
  revision are JavaScript numbers, that is, double-precision floating-point numbers;
  an integer stands for the number of that value. The ids the reducer allocates count
  up from 0; an action may carry any integer as its id. A \<open>FileHandle\<close> is an opaque
  object of the analysis engine; here a handle is the number the engine model below
  gave it.
\<close>

type_synonym FileId = int
type_synonym FileHandle = nat

text \<open>An entry \<open>{ id, name }\<close> of \<open>index\<close>.\<close>

record FileRecord =
  fileId :: FileId
  name :: string

text \<open>
  \<open>handles\<close> and \<open>contents\<close> are objects keyed by file id. A key of \<open>handles\<close> can be
  present with the value \<open>null\<close> (\<open>Some None\<close>): a file only the playground handles.
\<close>

record FilesState =
  selected :: "FileId option"
  index :: "FileRecord list"
  handles :: "FileId \<rightharpoonup> FileHandle option"
  contents :: "FileId \<rightharpoonup> string"
  revision :: int
  nextId :: FileId

datatype FileAction =
    Add "FileHandle option" string string
  | Change FileId string
  | Rename FileId string "FileHandle option"
  | Remove FileId
  | SelectFile FileId
  | SelectFileByName string

text \<open>Reading a property of \<open>undefined\<close> throws a \<open>TypeError\<close>.\<close>

datatype error = TypeError

text \<open>The state \<open>useReducer\<close> starts from.\<close>

definition initialState :: FilesState where
  "initialState =
     \<lparr>selected = None, index = [], handles = Map.empty, contents = Map.empty,
      revision = 0, nextId = 0\<rparr>"

subsection \<open>Adding one to a number\<close>

text \<open>
  Every integer up to \<open>2^53\<close> in absolute value is a number. A larger number has a
  significand of 53 bits, so it is a multiple of \<open>ulp\<close>, the power of two 53 places below
  its bit length. A sum is rounded to the nearest number, and half-way to the one with
  the even significand.
\<close>

fun bitLength :: "nat \<Rightarrow> nat" where
  "bitLength n = (if n = 0 then 0 else Suc (bitLength (n div 2)))"

definition roundToDouble :: "int \<Rightarrow> int" where
  "roundToDouble x =
     (if \<bar>x\<bar> \<le> 2 ^ 53 then x
      else
        (let ulp = 2 ^ (bitLength (nat \<bar>x\<bar>) - 53);
             q = \<bar>x\<bar> div ulp;
             r = \<bar>x\<bar> mod ulp;
             m = (if 2 * r < ulp then q
                  else if ulp < 2 * r then q + 1
                  else if even q then q else q + 1)
         in sgn x * (m * ulp)))"

text \<open>\<open>n + 1\<close> as the reducer computes it.\<close>

definition add1 :: "int \<Rightarrow> int" where
  "add1 n = roundToDouble (n + 1)"

subsection \<open>Array operations of JavaScript\<close>

text \<open>\<open>Array.prototype.findIndex\<close>: the first position whose element passes, or -1.\<close>

fun findIndex :: "('a \<Rightarrow> bool) \<Rightarrow> 'a list \<Rightarrow> int" where
  "findIndex p [] = -1"
| "findIndex p (x # xs) =
     (if p x then 0 else (let i = findIndex p xs in if i < 0 then -1 else i + 1))"

text \<open>\<open>xs[i]\<close>: \<open>undefined\<close> (\<open>None\<close>) outside the array.\<close>

definition at :: "'a list \<Rightarrow> int \<Rightarrow> 'a option" where
  "at xs i = (if 0 \<le> i \<and> i < int (length xs) then Some (xs ! nat i) else None)"

text \<open>
  \<open>xs.splice(start, 1, item)\<close> on a copy of the array: a negative \<open>start\<close> counts from
  the end, and at most one element (none past the end) is replaced by \<open>item\<close>.
\<close>

definition splice1 :: "'a list \<Rightarrow> int \<Rightarrow> 'a \<Rightarrow> 'a list" where
  "splice1 xs start item =
     (let len = int (length xs);
          actualStart = (if start < 0 then max (len + start) 0 else min start len);
          deleteCount = min 1 (len - actualStart)
      in take (nat actualStart) xs @ [item] @ drop (nat (actualStart + deleteCount)) xs)"

text \<open>\<open>Array.prototype.find\<close>.\<close>

fun find_first :: "('a \<Rightarrow> bool) \<Rightarrow> 'a list \<Rightarrow> 'a option" where
  "find_first p [] = None"
| "find_first p (x # xs) = (if p x then Some x else find_first p xs)"

subsection \<open>The reducer\<close>

fun filesReducer :: "FilesState \<Rightarrow> FileAction \<Rightarrow> error + FilesState" where
  "filesReducer state (Add handle name' content) =
     (let id' = nextId state in
      Inr (state\<lparr>selected := Some id',
                 index := index state @ [\<lparr>fileId = id', name = name'\<rparr>],
                 handles := (handles state)(id' \<mapsto> handle),
                 contents := (contents state)(id' \<mapsto> content),
                 nextId := add1 (nextId state),
                 revision := add1 (revision state)\<rparr>))"
| "filesReducer state (Change id' content) =
     Inr (state\<lparr>contents := (contents state)(id' \<mapsto> content),
                revision := add1 (revision state)\<rparr>)"
| "filesReducer state (Remove id') =
     (let contents' = (contents state)(id' := None);
          handles' = (handles state)(id' := None);
          rest = (\<lambda>selected'.
            Inr (state\<lparr>selected := selected',
                       index := filter (\<lambda>file. fileId file \<noteq> id') (index state),
                       contents := contents',
                       handles := handles',
                       revision := add1 (revision state)\<rparr>))
      in if selected state = Some id' then
           (let i = findIndex (\<lambda>file. fileId file = id') (index state) in
            case at (index state) (if i > 0 then i - 1 else i + 1) of
              None \<Rightarrow> Inl TypeError
            | Some file \<Rightarrow> rest (Some (fileId file)))
         else rest (selected state))"
| "filesReducer state (Rename id' to newHandle) =
     (let i = findIndex (\<lambda>file. fileId file = id') (index state);
          newIndex = splice1 (index state) i \<lparr>fileId = id', name = to\<rparr>
      in Inr (state\<lparr>index := newIndex,
                    handles := (handles state)(id' \<mapsto> newHandle)\<rparr>))"
| "filesReducer state (SelectFile id') = Inr (state\<lparr>selected := Some id'\<rparr>)"
| "filesReducer state (SelectFileByName name') =
     Inr (state\<lparr>selected :=
            map_option fileId (find_first (\<lambda>file. name file = name') (index state))\<rparr>)"

section \<open>Snapshots of a session (\<open>serializeFiles\<close>)\<close>

text \<open>
  A JavaScript object with string keys, as the list of its properties in the order they
  were created. Assigning to a property that exists keeps its place.
\<close>

type_synonym 'v jsobject = "(string \<times> 'v) list"


text \<open>
  \<open>Object.entries\<close> lists the properties whose key is an array index (the decimal
  numeral, without leading zeros, of an integer below \<open>2^32 - 1\<close>) in ascending numeric
  order, then all other properties in the order they were created.
\<close>

definition isDigit :: "char \<Rightarrow> bool" where
  "isDigit c = (48 \<le> (of_char c :: nat) \<and> (of_char c :: nat) \<le> 57)"

definition digitsValue :: "string \<Rightarrow> nat" where
  "digitsValue s = foldl (\<lambda>acc c. 10 * acc + (of_char c - 48)) 0 s"

definition isArrayIndex :: "string \<Rightarrow> bool" where
  "isArrayIndex s =
     (s \<noteq> [] \<and> list_all isDigit s \<and> (length s = 1 \<or> hd s \<noteq> CHR ''0'')
      \<and> digitsValue s < 2 ^ 32 - 1)"

definition objectEntries :: "'v jsobject \<Rightarrow> (string \<times> 'v) list" where
  "objectEntries obj =
     sort_key (\<lambda>p. digitsValue (fst p)) (filter (\<lambda>p. isArrayIndex (fst p)) obj)
     @ filter (\<lambda>p. \<not> isArrayIndex (fst p)) obj"

text \<open>
  The value of \<open>serializeFiles\<close> and of \<open>restore\<close>: \<open>{ files, current }\<close>. The content
  type is a parameter: \<open>serializeFiles\<close> stores \<open>files.contents[id]\<close>, which is
  \<open>undefined\<close> (\<open>None\<close>) for an id without content.
\<close>

record 'c Snapshot =
  files :: "'c jsobject"
  current :: string



section \<open>The bridge to the analysis engine\<close>

text \<open>A value a \<open>catch\<close> clause receives: an \<open>Error\<close> object with its message, or any other
  value with the string it converts to.\<close>

datatype thrown = ErrorObject string | Thrown string

text \<open>The value \<open>JSON.parse\<close> returns, handed to the engine as it is.\<close>

datatype json = Json string

type_synonym diagnostic = string

text \<open>
  The collaborators the playground calls and does not define: \<open>JSON.parse\<close>, the
  operations of the engine's \<open>Workspace\<close> that can throw or that return a value, and
  \<open>isPythonFile\<close> of the file list. They are parameters of the model.
\<close>

record env =
  jsonParse :: "string \<Rightarrow> thrown + json"
  engineUpdateOptions :: "json \<Rightarrow> thrown option"
  checkFile :: "FileHandle \<Rightarrow> thrown + diagnostic list"
  parsed :: "FileHandle \<Rightarrow> thrown + string"
  tokens :: "FileHandle \<Rightarrow> thrown + string"
  isPythonFile :: "FileHandle \<Rightarrow> bool"

text \<open>
  What a handler does, in program order: calls on the engine, calls of \<open>setError\<close>, and
  actions handed to \<open>dispatchFiles\<close>.
\<close>

datatype event =
    OpenFile string "string option" FileHandle
  | CloseFile FileHandle
  | UpdateOptions json
  | SetError "string option"
  | Dispatch FileAction

record world =
  events :: "event list"
  nextHandle :: FileHandle

definition freshWorld :: world where
  "freshWorld = \<lparr>events = [], nextHandle = 0\<rparr>"

definition emit :: "event \<Rightarrow> world \<Rightarrow> world" where
  "emit e w = w\<lparr>events := events w @ [e]\<rparr>"

text \<open>
  Modelled from the spec: \<open>open(name, content) -> handle\<close> and \<open>close(handle) -> void\<close>
  of the engine, whose \<open>Workspace\<close> class (\<open>red_knot_wasm\<close>) is not among the sources.
  Every call of \<open>openFile\<close> returns a handle no earlier call returned.
\<close>

definition openFile :: "string \<Rightarrow> string option \<Rightarrow> world \<Rightarrow> FileHandle \<times> world" where
  "openFile name' content w =
     (nextHandle w,
      w\<lparr>events := events w @ [OpenFile name' content (nextHandle w)],
        nextHandle := nextHandle w + 1\<rparr>)"

definition closeFile :: "FileHandle \<Rightarrow> world \<Rightarrow> world" where
  "closeFile handle w = emit (CloseFile handle) w"

definition setError :: "string option \<Rightarrow> world \<Rightarrow> world" where
  "setError e w = emit (SetError e) w"

definition dispatchFiles :: "FileAction \<Rightarrow> world \<Rightarrow> world" where
  "dispatchFiles action w = emit (Dispatch action) w"

definition SETTINGS_FILE_NAME :: string where
  "SETTINGS_FILE_NAME = ''knot.json''"

text \<open>\<open>JSON.stringify\<close> of the default settings object, indented by four spaces.\<close>

definition DEFAULT_SETTINGS :: string where
  \<open>DEFAULT_SETTINGS =
     ''{\<newline>    "environment": {\<newline>        "python-version": "3.13"\<newline>    },\<newline>    "rules": {\<newline>        "division-by-zero": "error"\<newline>    }\<newline>}''\<close>

definition errorMessage :: "thrown \<Rightarrow> string" where
  "errorMessage e = (case e of ErrorObject message \<Rightarrow> message | Thrown s \<Rightarrow> s)"

definition startsWith :: "string \<Rightarrow> string \<Rightarrow> bool" where
  "startsWith s prefix = (take (length prefix) s = prefix)"

definition formatError :: "thrown \<Rightarrow> string" where
  "formatError e =
     (let message = errorMessage e in
      if startsWith message ''Error: '' then drop (length ''Error: '') message
      else message)"

definition optionsErrorLabel :: string where
  "optionsErrorLabel = ''Failed to update 'knot.json' options: ''"

text \<open>
  \<open>updateOptions(workspace, content, setError)\<close>. The first argument says whether a
  workspace was passed (\<open>workspace?.updateOptions\<close> does nothing on \<open>null\<close>).
\<close>

definition updateOptions :: "env \<Rightarrow> bool \<Rightarrow> string option \<Rightarrow> world \<Rightarrow> world" where
  "updateOptions env workspace content w =
     (let content' = (case content of None \<Rightarrow> DEFAULT_SETTINGS | Some c \<Rightarrow> c) in
      case jsonParse env content' of
        Inl e \<Rightarrow> setError (Some (optionsErrorLabel @ formatError e)) w
      | Inr settings \<Rightarrow>
          if workspace then
            (let w' = emit (UpdateOptions settings) w in
             case engineUpdateOptions env settings of
               Some e \<Rightarrow> setError (Some (optionsErrorLabel @ formatError e)) w'
             | None \<Rightarrow> setError None w')
          else setError None w)"

text \<open>\<open>files.handles[file]\<close> as the test \<open>handle == null\<close> sees it: \<open>None\<close> for \<open>null\<close> and
  for a missing key.\<close>

definition handleOf :: "FilesState \<Rightarrow> FileId \<Rightarrow> FileHandle option" where
  "handleOf state file = (case handles state file of Some (Some h) \<Rightarrow> Some h | _ \<Rightarrow> None)"

definition handleFileRenamed ::
  "env \<Rightarrow> FilesState \<Rightarrow> FileId \<Rightarrow> string \<Rightarrow> world \<Rightarrow> world" where
  "handleFileRenamed env state file newName w =
     (let w1 = (case handleOf state file of
                  None \<Rightarrow> updateOptions env True None w
                | Some handle \<Rightarrow> closeFile handle w);
          (newHandle, w2) =
            (if newName = SETTINGS_FILE_NAME
             then (None, updateOptions env True (contents state file) w1)
             else (let (h, w') = openFile newName (contents state file) w1
                   in (Some h, w')))
      in dispatchFiles (Rename file newName newHandle) w2)"

text \<open>The loop of the start-up callback over the restored files, on \<open>hasSettings\<close> and the
  world.\<close>

fun openFiles :: "env \<Rightarrow> (string \<times> string) list \<Rightarrow> bool \<times> world \<Rightarrow> bool \<times> world" where
  "openFiles env [] acc = acc"
| "openFiles env ((name', content) # rest) (hasSettings, w) =
     (if name' = SETTINGS_FILE_NAME then
        openFiles env rest
          (True,
           dispatchFiles (Add None name' content)
             (updateOptions env True (Some content) w))
      else
        (let (handle, w') = openFile name' (Some content) w in
         openFiles env rest
           (hasSettings, dispatchFiles (Add (Some handle) name' content) w')))"

text \<open>The start-up callback of \<open>Playground\<close>, on the snapshot \<open>fetched.workspace\<close> and a new
  workspace.\<close>

definition startWorkspace :: "env \<Rightarrow> string Snapshot \<Rightarrow> world" where
  "startWorkspace env fetched =
     (let (hasSettings, w) = openFiles env (objectEntries (files fetched)) (False, freshWorld);
          w' = (if \<not> hasSettings then updateOptions env True None w else w)
      in dispatchFiles (SelectFileByName (current fetched)) w')"

text \<open>\<open>useReducer\<close>: the dispatched actions go through the reducer in order.\<close>

fun dispatched :: "event list \<Rightarrow> FileAction list" where
  "dispatched [] = []"
| "dispatched (Dispatch action # es) = action # dispatched es"
| "dispatched (_ # es) = dispatched es"

fun reduceAll :: "FilesState \<Rightarrow> FileAction list \<Rightarrow> error + FilesState" where
  "reduceAll state [] = Inr state"
| "reduceAll state (action # actions) =
     (case filesReducer state action of
        Inl e \<Rightarrow> Inl e
      | Inr state' \<Rightarrow> reduceAll state' actions)"

definition restoreSession :: "env \<Rightarrow> string Snapshot \<Rightarrow> error + FilesState" where
  "restoreSession env fetched =
     reduceAll initialState (dispatched (events (startWorkspace env fetched)))"

section \<open>The analysis pipeline (\<open>useCheckResult\<close>)\<close>

datatype SecondaryTool = AST | Tokens | Run

datatype SecondaryPanelResult = StatusOk string | StatusError string

record CheckResult =
  diagnostics :: "diagnostic list"
  error :: "string option"
  secondary :: "SecondaryPanelResult option"

definition noResult :: CheckResult where
  "noResult = \<lparr>diagnostics = [], error = None, secondary = None\<rparr>"

text \<open>
  The body of the memo in \<open>useCheckResult\<close>. \<open>deferredContent\<close> is the deferred value of
  the selected file's content, \<open>None\<close> for \<open>null\<close> or \<open>undefined\<close>.
\<close>

definition useCheckResult ::
  "env \<Rightarrow> FilesState \<Rightarrow> string option \<Rightarrow> SecondaryTool option \<Rightarrow> CheckResult" where
  "useCheckResult env state deferredContent secondaryTool =
     (case selected state of
        None \<Rightarrow> noResult
      | Some selected' \<Rightarrow>
          if deferredContent = None then noResult
          else
            (case handleOf state selected' of
               None \<Rightarrow> noResult
             | Some currentHandle \<Rightarrow>
                 if \<not> isPythonFile env currentHandle then noResult
                 else
                   (case checkFile env currentHandle of
                      Inl e \<Rightarrow>
                        \<lparr>diagnostics = [], error = Some (formatError e), secondary = None\<rparr>
                    | Inr diagnostics' \<Rightarrow>
                        (let secondary' =
                           (case secondaryTool of
                              None \<Rightarrow> None
                            | Some AST \<Rightarrow>
                                (case parsed env currentHandle of
                                   Inr content \<Rightarrow> Some (StatusOk content)
                                 | Inl e \<Rightarrow> Some (StatusError (errorMessage e)))
                            | Some Tokens \<Rightarrow>
                                (case tokens env currentHandle of
                                   Inr content \<Rightarrow> Some (StatusOk content)
                                 | Inl e \<Rightarrow> Some (StatusError (errorMessage e)))
                            | Some Run \<Rightarrow> Some (StatusOk ''''))
                         in \<lparr>diagnostics = diagnostics', error = None,
                              secondary = secondary'\<rparr>))))"

text \<open>The error the page shows: the argument of the last \<open>setError\<close>.\<close>

definition shownError :: "event list \<Rightarrow> string option" where
  "shownError es = foldl (\<lambda>shown e. case e of SetError x \<Rightarrow> x | _ \<Rightarrow> shown) None es"

section \<open>The invariants of the data model\<close>

definition ids :: "FilesState \<Rightarrow> FileId set" where
  "ids state = fileId ` set (index state)"

text \<open>1. \<open>contents\<close> and \<open>handles\<close> have exactly the ids of \<open>index\<close> as keys.\<close>

definition invariant1 :: "FilesState \<Rightarrow> bool" where
  "invariant1 state = (dom (contents state) = ids state \<and> dom (handles state) = ids state)"

text \<open>2. No id occurs twice in \<open>index\<close>.\<close>

definition invariant2 :: "FilesState \<Rightarrow> bool" where
  "invariant2 state = distinct (map fileId (index state))"

text \<open>3. The selection is none or an id of \<open>index\<close>.\<close>

definition invariant3 :: "FilesState \<Rightarrow> bool" where
  "invariant3 state = (case selected state of None \<Rightarrow> True | Some i \<Rightarrow> i \<in> ids state)"

text \<open>4. At most one file has the reserved name, and it has no engine handle.\<close>

definition isSettingsFile :: "FileRecord \<Rightarrow> bool" where
  "isSettingsFile file = (name file = SETTINGS_FILE_NAME)"

definition invariant4 :: "FilesState \<Rightarrow> bool" where
  "invariant4 state =
     (length (filter isSettingsFile (index state)) \<le> 1
      \<and> (\<forall>file \<in> set (index state).
            isSettingsFile file \<longrightarrow> handleOf state (fileId file) = None))"

definition invariants :: "FilesState \<Rightarrow> bool" where
  "invariants state =
     (invariant1 state \<and> invariant2 state \<and> invariant3 state \<and> invariant4 state)"

text \<open>Ids are allocated from \<open>nextId\<close>, so every id in use lies below it.\<close>

definition idsBelowNext :: "FilesState \<Rightarrow> bool" where
  "idsBelowNext state = (\<forall>i \<in> ids state. i < nextId state)"

definition wellFormed :: "FilesState \<Rightarrow> bool" where
  "wellFormed state =
     (invariant1 state \<and> invariant2 state \<and> invariant3 state \<and> idsBelowNext state)"

text \<open>The precondition the specification gives each action: its id is in \<open>index\<close>.\<close>

fun precondition :: "FilesState \<Rightarrow> FileAction \<Rightarrow> bool" where
  "precondition state (Add handle name' content) = True"
| "precondition state (Change id' content) = (id' \<in> ids state)"
| "precondition state (Rename id' to newHandle) = (id' \<in> ids state)"
| "precondition state (Remove id') = (id' \<in> ids state)"
| "precondition state (SelectFile id') = (id' \<in> ids state)"
| "precondition state (SelectFileByName name') = True"

text \<open>
  What the reducer leaves to its caller about the reserved name: an action that gives a
  file the reserved name carries no handle, and no other file has that name.
\<close>

fun settingsDiscipline :: "FilesState \<Rightarrow> FileAction \<Rightarrow> bool" where
  "settingsDiscipline state (Add handle name' content) =
     (name' = SETTINGS_FILE_NAME \<longrightarrow>
        handle = None \<and> (\<forall>file \<in> set (index state). \<not> isSettingsFile file))"
| "settingsDiscipline state (Rename id' to newHandle) =
     (to = SETTINGS_FILE_NAME \<longrightarrow>
        newHandle = None
        \<and> (\<forall>file \<in> set (index state). isSettingsFile file \<longrightarrow> fileId file = id'))"
| "settingsDiscipline state action = True"

text \<open>The states a sequence of actions goes through, up to the first action that throws.\<close>

fun states :: "FilesState \<Rightarrow> FileAction list \<Rightarrow> FilesState list" where
  "states state [] = []"
| "states state (action # actions) =
     (case filesReducer state action of
        Inl e \<Rightarrow> []
      | Inr state' \<Rightarrow> state' # states state' actions)"

text \<open>Every action of the sequence satisfies \<open>ok\<close> in the state it is applied to.\<close>

fun admissible ::
  "(FilesState \<Rightarrow> FileAction \<Rightarrow> bool) \<Rightarrow> FilesState \<Rightarrow> FileAction list \<Rightarrow> bool" where
  "admissible ok state [] = True"
| "admissible ok state (action # actions) =
     (ok state action
      \<and> (case filesReducer state action of
            Inl e \<Rightarrow> True
          | Inr state' \<Rightarrow> admissible ok state' actions))"

text \<open>The session of the rename scenario, as a stored snapshot.\<close>

definition scenarioSnapshot :: "string Snapshot" where
  "scenarioSnapshot =
     \<lparr>files = [(''main.py'', ''import os''), (''knot.json'', ''{}'')], current = ''main.py''\<rparr>"

section \<open>Sample data\<close>

text \<open>A session with the one file \<open>main.py\<close>, selected and open in the engine.\<close>

definition mainSession :: FilesState where
  "mainSession =
     \<lparr>selected = Some 0, index = [\<lparr>fileId = 0, name = ''main.py''\<rparr>],
      handles = [0 \<mapsto> Some 0], contents = [0 \<mapsto> ''import os''],
      revision = 1, nextId = 1\<rparr>"

text \<open>
  Collaborators for the examples: \<open>JSON.parse\<close> accepts the text \<open>{}\<close> only, the engine
  accepts every configuration, checks every file with one diagnostic, and fails to
  dump the syntax tree and the tokens.
\<close>

definition stubEnv :: env where
  "stubEnv =
     \<lparr>jsonParse = (\<lambda>s. if s = ''{}'' then Inr (Json ''{}'')
                         else Inl (ErrorObject ''Error: Unexpected end of JSON input'')),
      engineUpdateOptions = (\<lambda>settings. None),
      checkFile = (\<lambda>h. Inr [''unresolved-import'']),
      parsed = (\<lambda>h. Inl (ErrorObject ''ast failed'')),
      tokens = (\<lambda>h. Inl (Thrown ''tokens failed'')),
      isPythonFile = (\<lambda>h. True)\<rparr>"

text \<open>The session the start-up callback builds from \<open>scenarioSnapshot\<close>.\<close>

definition scenarioSession :: FilesState where
  "scenarioSession =
     \<lparr>selected = Some 0,
      index = [\<lparr>fileId = 0, name = ''main.py''\<rparr>, \<lparr>fileId = 1, name = ''knot.json''\<rparr>],
      handles = [0 \<mapsto> Some 0, 1 \<mapsto> None],
      contents = [0 \<mapsto> ''import os'', 1 \<mapsto> ''{}''],
      revision = 2, nextId = 2\<rparr>"


text \<open>The empty session with both counters at \<open>2^53\<close>.\<close>

definition saturatedSession :: FilesState where
  "saturatedSession =
     \<lparr>selected = None, index = [], handles = Map.empty, contents = Map.empty,
      revision = 2 ^ 53, nextId = 2 ^ 53\<rparr>"





section \<open>Facts about numbers and the array operations\<close>

text \<open>Below \<open>2^53\<close> in absolute value, adding one is exact.\<close>

lemma add1_exact:
  assumes "\<bar>n\<bar> < 2 ^ 53"
  shows "add1 n = n + 1"
proof -
  from assms have "\<bar>n + 1\<bar> \<le> 2 ^ 53" by arith
  then show ?thesis by (simp only: add1_def roundToDouble_def if_True)
qed

text \<open>At \<open>2^53\<close> the sum \<open>2^53 + 1\<close> is half-way between two numbers and rounds back.\<close>

lemma add1_stuck: "add1 (2 ^ 53) = 2 ^ 53"
  by (simp add: add1_def roundToDouble_def Let_def)

lemma findIndex_lower: "- 1 \<le> findIndex p xs"
  by (induction xs) (auto simp: Let_def)

lemma findIndex_found:
  "\<exists>x \<in> set xs. p x \<Longrightarrow>
     0 \<le> findIndex p xs \<and> nat (findIndex p xs) < length xs \<and> p (xs ! nat (findIndex p xs))"
proof (induction xs)
  case Nil
  then show ?case by simp
next
  case (Cons x xs)
  show ?case
  proof (cases "p x")
    case True
    then show ?thesis by simp
  next
    case False
    with Cons.prems have "\<exists>y \<in> set xs. p y" by simp
    from Cons.IH [OF this] False show ?thesis
      by (simp add: Let_def nat_add_distrib)
  qed
qed

lemma findIndex_missing: "\<forall>x \<in> set xs. \<not> p x \<Longrightarrow> findIndex p xs = - 1"
  by (induction xs) (auto simp: Let_def)

lemma at_Some: "at xs i = Some x \<Longrightarrow> 0 \<le> i \<and> nat i < length xs \<and> x = xs ! nat i"
  by (auto simp: at_def split: if_splits)

lemma at_nth: "0 \<le> i \<Longrightarrow> nat i < length xs \<Longrightarrow> at xs i = Some (xs ! nat i)"
  by (auto simp: at_def)

lemma splice1_update:
  assumes "0 \<le> i" and "nat i < length xs"
  shows "splice1 xs i item = xs[nat i := item]"
proof -
  from assms have "i < int (length xs)" by linarith
  then have "min i (int (length xs)) = i" and "min 1 (int (length xs) - i) = 1"
    by auto
  with assms show ?thesis
    by (simp add: splice1_def Let_def upd_conv_take_nth_drop nat_add_distrib)
qed

lemma find_first_Some: "find_first p xs = Some x \<Longrightarrow> x \<in> set xs \<and> p x"
  by (induction xs) (auto split: if_splits)


lemma filter_update_le:
  "\<not> P y \<Longrightarrow> length (filter P (xs[n := y])) \<le> length (filter P xs)"
  by (induction xs arbitrary: n) (auto split: nat.splits)

lemma filter_update_single:
  "\<forall>j < length xs. j \<noteq> n \<longrightarrow> \<not> P (xs ! j) \<Longrightarrow> length (filter P (xs[n := y])) \<le> 1"
proof (induction xs arbitrary: n)
  case Nil
  then show ?case by simp
next
  case (Cons x xs)
  show ?case
  proof (cases n)
    case 0
    from Cons.prems 0 have "\<forall>j < length xs. \<not> P (xs ! j)" by auto
    then have "filter P xs = []"
      by (auto simp: filter_empty_conv in_set_conv_nth)
    with 0 show ?thesis by simp
  next
    case (Suc m)
    from Cons.prems Suc have "\<not> P x" by auto
    moreover from Cons.prems Suc have "\<forall>j < length xs. j \<noteq> m \<longrightarrow> \<not> P (xs ! j)" by auto
    ultimately show ?thesis using Cons.IH [of m] Suc by simp
  qed
qed

lemma filter_filter_le: "length (filter P (filter Q xs)) \<le> length (filter P xs)"
  by (induction xs) auto

lemma nat_neq: "0 \<le> (k::int) \<Longrightarrow> 0 \<le> i \<Longrightarrow> k \<noteq> i \<Longrightarrow> nat k \<noteq> nat i"
  by simp

lemma neighbour_id:
  assumes "distinct (map fileId xs)" and "n < length xs" and "k < length xs" and "k \<noteq> n"
  shows "fileId (xs ! k) \<noteq> fileId (xs ! n)"
  using nth_eq_iff_index_eq [of "map fileId xs" k n] assms by simp

lemma renamed_index:
  assumes "id' \<in> ids state"
  defines "n \<equiv> nat (findIndex (\<lambda>file. fileId file = id') (index state))"
  shows "splice1 (index state) (findIndex (\<lambda>file. fileId file = id') (index state)) item
           = (index state)[n := item]"
    and "n < length (index state)"
    and "fileId (index state ! n) = id'"
proof -
  from assms(1) have "\<exists>x \<in> set (index state). fileId x = id'"
    by (auto simp: ids_def)
  from findIndex_found [OF this]
  show "splice1 (index state) (findIndex (\<lambda>file. fileId file = id') (index state)) item
           = (index state)[n := item]"
    and "n < length (index state)"
    and "fileId (index state ! n) = id'"
    by (simp_all add: n_def splice1_update)
qed

lemma ids_update:
  "n < length xs \<Longrightarrow> fileId (xs ! n) = id' \<Longrightarrow>
     map fileId (xs[n := \<lparr>fileId = id', name = to\<rparr>]) = map fileId xs"
  by (simp add: map_update list_update_same_conv)

lemma ids_filter:
  "fileId ` set (filter (\<lambda>file. fileId file \<noteq> id') xs) = fileId ` set xs - {id'}"
  by auto

lemma unknown_id_filter:
  "id' \<notin> fileId ` set xs \<Longrightarrow> filter (\<lambda>file. fileId file \<noteq> id') xs = xs"
  by (induction xs) auto

lemma unknown_id_map: "id' \<notin> dom m \<Longrightarrow> m(id' := None) = m"
  by (auto simp: fun_eq_iff)

section \<open>The transitions of the store\<close>

text \<open>What \<open>add\<close> returns, in every state.\<close>

lemma add_result:
  "filesReducer state (Add handle name' content) =
     Inr (state\<lparr>selected := Some (nextId state),
                index := index state @ [\<lparr>fileId = nextId state, name = name'\<rparr>],
                handles := (handles state)(nextId state \<mapsto> handle),
                contents := (contents state)(nextId state \<mapsto> content),
                nextId := add1 (nextId state),
                revision := add1 (revision state)\<rparr>)"
  by (simp add: Let_def)




text \<open>
  The conditions of the amended claim hold in every state in which invariant 1 holds and
  every id in use lies below \<open>nextId\<close>, as in the states reached from the initial one.
\<close>

lemma wellFormed_fresh:
  assumes "wellFormed state"
  shows "nextId state \<notin> dom (contents state) \<and> nextId state \<notin> dom (handles state)"
  using assms by (auto simp: wellFormed_def invariant1_def idsBelowNext_def)

text \<open>
  Claim C10. For every state and every id, in \<open>index\<close> or not, \<open>selectFile\<close> sets
  \<open>selected\<close> to that id and changes no other field; \<open>revision\<close> stays. The reducer
  does not look the id up: for an id that is not in \<open>index\<close> the new selection
  refers to no record.
\<close>

theorem selectFile_transition:
  "filesReducer state (SelectFile id') = Inr (state\<lparr>selected := Some id'\<rparr>)
   \<and> (id' \<notin> ids state \<longrightarrow> \<not> invariant3 (state\<lparr>selected := Some id'\<rparr>))"
  by (simp add: invariant3_def ids_def)

theorem selectFile_transition_witness:
  "7 \<notin> ids mainSession
   \<and> filesReducer mainSession (SelectFile 7) = Inr (mainSession\<lparr>selected := Some 7\<rparr>)
   \<and> \<not> invariant3 (mainSession\<lparr>selected := Some 7\<rparr>)
   \<and> revision (mainSession\<lparr>selected := Some 7\<rparr>) = revision mainSession"
proof -
  have n: "7 \<notin> ids mainSession"
    by (simp add: mainSession_def ids_def)
  from selectFile_transition [of mainSession 7] n show ?thesis by simp
qed

subsection \<open>The revision counter\<close>

text \<open>
  \<open>add\<close>, \<open>change\<close> and \<open>remove\<close> add one to \<open>revision\<close> whenever they return: exactly
  one while \<open>revision\<close> is below \<open>2^53\<close>.
\<close>

lemma add_change_remove_bump_revision:
  assumes "action = Add handle name' content \<or> action = Change id' content \<or> action = Remove id'"
    and "filesReducer state action = Inr state'"
  shows "revision state' = add1 (revision state)"
  using assms by (auto simp: Let_def split: if_splits option.splits)

text \<open>\<open>rename\<close> returns a state with the \<open>revision\<close> it was given.\<close>

lemma rename_revision:
  assumes "filesReducer state (Rename id' to newHandle) = Inr state'"
  shows "revision state' = revision state"
  using assms by (auto simp: Let_def)

text \<open>
  Claim C3 says that each of \<open>add\<close>, \<open>change\<close>, \<open>rename\<close> and \<open>remove\<close> increases
  \<open>revision\<close> by exactly one. The reducer's \<open>rename\<close> case does not touch \<open>revision\<close>:
  renaming \<open>main.py\<close> in the session that holds only this file leaves \<open>revision\<close> at 1.
\<close>

theorem rename_keeps_revision:
  "filesReducer
     \<lparr>selected = Some 0, index = [\<lparr>fileId = 0, name = ''main.py''\<rparr>],
      handles = [0 \<mapsto> Some 0], contents = [0 \<mapsto> ''import os''],
      revision = 1, nextId = 1\<rparr>
     (Rename 0 ''lib.py'' (Some 1))
   = Inr \<lparr>selected = Some 0, index = [\<lparr>fileId = 0, name = ''lib.py''\<rparr>],
          handles = [0 \<mapsto> Some 1], contents = [0 \<mapsto> ''import os''],
          revision = 1, nextId = 1\<rparr>"
  by (simp add: splice1_def)

subsection \<open>Removing a file\<close>

text \<open>
  Whenever \<open>remove\<close> returns, the record of the id is gone from \<open>index\<close>, its content
  and its handle are deleted, and one has been added to \<open>revision\<close>.
\<close>

lemma remove_frame:
  assumes "filesReducer state (Remove id') = Inr state'"
  shows "index state' = filter (\<lambda>file. fileId file \<noteq> id') (index state)"
    and "contents state' = (contents state)(id' := None)"
    and "handles state' = (handles state)(id' := None)"
    and "revision state' = add1 (revision state)"
    and "nextId state' = nextId state"
  using assms by (auto simp: Let_def split: if_splits option.splits)

text \<open>Removing a file that is not selected keeps the selection.\<close>

lemma remove_unselected:
  assumes "selected state \<noteq> Some id'"
  shows "filesReducer state (Remove id') =
           Inr (state\<lparr>selected := selected state,
                      index := filter (\<lambda>file. fileId file \<noteq> id') (index state),
                      contents := (contents state)(id' := None),
                      handles := (handles state)(id' := None),
                      revision := add1 (revision state)\<rparr>)"
  using assms by (simp add: Let_def)

text \<open>
  Removing the selected file, at position \<open>n\<close> of \<open>index\<close>: the file before it becomes
  selected; for the first file, the file after it; and when the first file is the only
  one, \<open>state.index[1]\<close> is \<open>undefined\<close> and reading its \<open>id\<close> throws.
\<close>

lemma remove_selected:
  assumes inv: "invariants state" and sel: "selected state = Some id'"
  defines "n \<equiv> nat (findIndex (\<lambda>file. fileId file = id') (index state))"
  shows "n < length (index state) \<and> fileId (index state ! n) = id'"
    and "0 < n \<Longrightarrow>
           filesReducer state (Remove id') =
             Inr (state\<lparr>selected := Some (fileId (index state ! (n - 1))),
                        index := filter (\<lambda>file. fileId file \<noteq> id') (index state),
                        contents := (contents state)(id' := None),
                        handles := (handles state)(id' := None),
                        revision := add1 (revision state)\<rparr>)"
    and "n = 0 \<Longrightarrow> 1 < length (index state) \<Longrightarrow>
           filesReducer state (Remove id') =
             Inr (state\<lparr>selected := Some (fileId (index state ! 1)),
                        index := filter (\<lambda>file. fileId file \<noteq> id') (index state),
                        contents := (contents state)(id' := None),
                        handles := (handles state)(id' := None),
                        revision := add1 (revision state)\<rparr>)"
    and "n = 0 \<Longrightarrow> length (index state) = 1 \<Longrightarrow>
           filesReducer state (Remove id') = Inl TypeError"
proof -
  let ?i = "findIndex (\<lambda>file. fileId file = id') (index state)"
  from inv sel have "id' \<in> ids state"
    by (simp add: invariants_def invariant3_def)
  then have "\<exists>x \<in> set (index state). fileId x = id'"
    by (auto simp: ids_def)
  from findIndex_found [OF this]
  have i0: "0 \<le> ?i" and il: "n < length (index state)"
    and ii: "fileId (index state ! n) = id'"
    by (simp_all add: n_def)
  from il ii show "n < length (index state) \<and> fileId (index state ! n) = id'" by simp
  {
    assume pos: "0 < n"
    then have ip: "0 < ?i" by (simp add: n_def)
    have "nat (?i - 1) = n - 1" by (simp add: n_def)
    with il pos have "at (index state) (?i - 1) = Some (index state ! (n - 1))"
      using ip by (simp add: at_def)
    with sel ip show "filesReducer state (Remove id') =
             Inr (state\<lparr>selected := Some (fileId (index state ! (n - 1))),
                        index := filter (\<lambda>file. fileId file \<noteq> id') (index state),
                        contents := (contents state)(id' := None),
                        handles := (handles state)(id' := None),
                        revision := add1 (revision state)\<rparr>)"
      by (simp add: Let_def)
  }
  {
    assume z: "n = 0"
    with i0 have iz: "?i = 0" by (simp add: n_def)
    {
      assume "1 < length (index state)"
      then have "at (index state) 1 = Some (index state ! 1)"
        by (simp add: at_def)
      with sel iz show "filesReducer state (Remove id') =
             Inr (state\<lparr>selected := Some (fileId (index state ! 1)),
                        index := filter (\<lambda>file. fileId file \<noteq> id') (index state),
                        contents := (contents state)(id' := None),
                        handles := (handles state)(id' := None),
                        revision := add1 (revision state)\<rparr>)"
        by (simp add: Let_def)
    }
    {
      assume "length (index state) = 1"
      then have "at (index state) 1 = None"
        by (simp add: at_def)
      with sel iz show "filesReducer state (Remove id') = Inl TypeError"
        by (simp add: Let_def)
    }
  }
qed

text \<open>
  Claim C2 says that \<open>remove\<close> of an id of \<open>index\<close> excises the record, deletes its
  content and handle, increases \<open>revision\<close> and, when the file was selected, selects
  the file before it, else the file after it, else none, so that removing the only
  file yields the selection none. The reducer does all of this but the last: in the
  session that holds only \<open>main.py\<close>, selected, \<open>remove\<close> of that file throws and has no
  result state.
\<close>

theorem remove_only_file_throws:
  "filesReducer
     \<lparr>selected = Some 0, index = [\<lparr>fileId = 0, name = ''main.py''\<rparr>],
      handles = [0 \<mapsto> Some 0], contents = [0 \<mapsto> ''import os''],
      revision = 1, nextId = 1\<rparr>
     (Remove 0)
   = Inl TypeError"
  by (simp add: at_def)

section \<open>Preservation of the invariants\<close>

text \<open>
  Invariants 1 to 3 are kept together with the fact that every id in use lies below
  \<open>nextId\<close>; invariant 4 is kept apart, since it alone depends on names and handles.
\<close>

lemma fresh_nextId:
  "idsBelowNext state \<Longrightarrow> \<forall>file \<in> set (index state). fileId file \<noteq> nextId state"
  by (auto simp: idsBelowNext_def ids_def)

lemma invariant4_frame:
  "index state' = index state \<Longrightarrow> handles state' = handles state \<Longrightarrow>
     invariant4 state' = invariant4 state"
  by (simp add: invariant4_def handleOf_def)

subsection \<open>add\<close>

lemma add_wellFormed:
  assumes wf: "wellFormed state" and safe: "\<bar>nextId state\<bar> < 2 ^ 53"
  shows "wellFormed
           (state\<lparr>selected := Some (nextId state),
                  index := index state @ [\<lparr>fileId = nextId state, name = name'\<rparr>],
                  handles := (handles state)(nextId state \<mapsto> handle),
                  contents := (contents state)(nextId state \<mapsto> content),
                  nextId := add1 (nextId state),
                  revision := add1 (revision state)\<rparr>)"
    (is "wellFormed ?s'")
proof -
  from safe have n: "add1 (nextId state) = nextId state + 1"
    by (rule add1_exact)
  from wf have "\<forall>file \<in> set (index state). fileId file \<noteq> nextId state"
    by (simp add: wellFormed_def fresh_nextId)
  then have fresh: "nextId state \<notin> fileId ` set (index state)"
    by (auto simp: image_iff)
  have i1: "invariant1 ?s'"
    using wf by (auto simp: wellFormed_def invariant1_def ids_def)
  have i2: "invariant2 ?s'"
    using wf fresh by (simp add: wellFormed_def invariant2_def)
  have i3: "invariant3 ?s'"
    by (simp add: invariant3_def ids_def)
  have b: "idsBelowNext ?s'"
    using wf by (auto simp: wellFormed_def idsBelowNext_def ids_def n)
  from i1 i2 i3 b show ?thesis by (simp add: wellFormed_def)
qed

lemma add_invariant4:
  assumes below: "idsBelowNext state" and old4: "invariant4 state"
    and disc: "settingsDiscipline state (Add handle name' content)"
  shows "invariant4
           (state\<lparr>selected := Some (nextId state),
                  index := index state @ [\<lparr>fileId = nextId state, name = name'\<rparr>],
                  handles := (handles state)(nextId state \<mapsto> handle),
                  contents := (contents state)(nextId state \<mapsto> content),
                  nextId := add1 (nextId state),
                  revision := add1 (revision state)\<rparr>)"
    (is "invariant4 ?s'")
proof -
  from old4 have old: "length (filter isSettingsFile (index state)) \<le> 1"
    and oldh: "\<forall>file \<in> set (index state).
                 isSettingsFile file \<longrightarrow> handleOf state (fileId file) = None"
    by (auto simp: invariant4_def)
  from below have "\<forall>file \<in> set (index state). fileId file \<noteq> nextId state"
    by (rule fresh_nextId)
  then have keep: "\<And>entry. entry \<in> set (index state) \<Longrightarrow>
      handleOf ?s' (fileId entry) = handleOf state (fileId entry)"
    by (simp add: handleOf_def)
  show ?thesis
  proof (cases "name' = SETTINGS_FILE_NAME")
    case True
    with disc have h: "handle = None"
      and none: "\<forall>file \<in> set (index state). \<not> isSettingsFile file"
      by auto
    from none have "filter isSettingsFile (index state) = []"
      by (simp add: filter_empty_conv)
    then show ?thesis using h none
      by (auto simp: invariant4_def handleOf_def)
  next
    case False
    then have "\<not> isSettingsFile \<lparr>fileId = nextId state, name = name'\<rparr>"
      by (simp add: isSettingsFile_def)
    then show ?thesis using old oldh keep
      by (auto simp: invariant4_def)
  qed
qed

subsection \<open>change and the two selections\<close>

lemma change_wellFormed:
  assumes "wellFormed state" and "id' \<in> ids state"
  shows "wellFormed (state\<lparr>contents := (contents state)(id' \<mapsto> content),
                           revision := add1 (revision state)\<rparr>)"
  using assms
  by (auto simp: wellFormed_def invariant1_def invariant2_def invariant3_def idsBelowNext_def
      ids_def split: option.splits)

lemma selectFile_wellFormed:
  assumes "wellFormed state" and "id' \<in> ids state"
  shows "wellFormed (state\<lparr>selected := Some id'\<rparr>)"
  using assms
  by (auto simp: wellFormed_def invariant1_def invariant2_def invariant3_def idsBelowNext_def
      ids_def)

lemma selectFileByName_wellFormed:
  assumes "wellFormed state"
  shows "wellFormed (state\<lparr>selected :=
            map_option fileId (find_first (\<lambda>file. name file = name') (index state))\<rparr>)"
proof -
  have "invariant3 (state\<lparr>selected :=
            map_option fileId (find_first (\<lambda>file. name file = name') (index state))\<rparr>)"
    by (auto simp: invariant3_def ids_def split: option.splits dest: find_first_Some)
  with assms show ?thesis
    by (auto simp: wellFormed_def invariant1_def invariant2_def idsBelowNext_def ids_def)
qed

subsection \<open>remove\<close>

lemma removed_wellFormed:
  assumes wf: "wellFormed state"
    and sel: "case selected' of None \<Rightarrow> True | Some i \<Rightarrow> i \<in> ids state \<and> i \<noteq> id'"
  shows "wellFormed (state\<lparr>selected := selected',
                       index := filter (\<lambda>file. fileId file \<noteq> id') (index state),
                       contents := (contents state)(id' := None),
                       handles := (handles state)(id' := None),
                       revision := add1 (revision state)\<rparr>)"
    (is "wellFormed ?s'")
proof -
  have ix: "index ?s' = filter (\<lambda>file. fileId file \<noteq> id') (index state)"
    by simp
  have ids': "ids ?s' = ids state - {id'}"
    unfolding ids_def ix by (rule ids_filter)
  have i1: "invariant1 ?s'"
    using wf by (auto simp: wellFormed_def invariant1_def ids')
  have i2: "invariant2 ?s'"
    using wf by (simp add: wellFormed_def invariant2_def distinct_map_filter)
  have i3: "invariant3 ?s'"
    using sel ids' by (cases selected') (simp_all add: invariant3_def)
  have b: "idsBelowNext ?s'"
    using wf unfolding wellFormed_def idsBelowNext_def ids' by simp
  from i1 i2 i3 b show ?thesis by (simp add: wellFormed_def)
qed

lemma removed_invariant4:
  assumes old4: "invariant4 state"
  shows "invariant4 (state\<lparr>selected := selected',
                       index := filter (\<lambda>file. fileId file \<noteq> id') (index state),
                       contents := (contents state)(id' := None),
                       handles := (handles state)(id' := None),
                       revision := add1 (revision state)\<rparr>)"
    (is "invariant4 ?s'")
proof -
  from old4 have old: "length (filter isSettingsFile (index state)) \<le> 1"
    and oldh: "\<forall>file \<in> set (index state).
                 isSettingsFile file \<longrightarrow> handleOf state (fileId file) = None"
    by (auto simp: invariant4_def)
  have "length (filter isSettingsFile (filter (\<lambda>file. fileId file \<noteq> id') (index state))) \<le> 1"
    using old filter_filter_le [of isSettingsFile "\<lambda>file. fileId file \<noteq> id'" "index state"]
    by linarith
  moreover have "\<forall>file \<in> set (filter (\<lambda>file. fileId file \<noteq> id') (index state)).
      isSettingsFile file \<longrightarrow> handleOf ?s' (fileId file) = None"
    using oldh by (simp add: handleOf_def)
  ultimately show ?thesis by (simp add: invariant4_def)
qed

text \<open>What \<open>remove\<close> returns: the new selection is none or another id of \<open>index\<close>.\<close>

lemma remove_result:
  assumes i2: "invariant2 state" and i3: "invariant3 state"
    and step: "filesReducer state (Remove id') = Inr state'"
  shows "\<exists>selected'.
           state' = state\<lparr>selected := selected',
                       index := filter (\<lambda>file. fileId file \<noteq> id') (index state),
                       contents := (contents state)(id' := None),
                       handles := (handles state)(id' := None),
                       revision := add1 (revision state)\<rparr>
           \<and> (case selected' of None \<Rightarrow> True | Some i \<Rightarrow> i \<in> ids state \<and> i \<noteq> id')"
proof (cases "selected state = Some id'")
  case False
  with step have s': "state' = state\<lparr>selected := selected state,
                       index := filter (\<lambda>file. fileId file \<noteq> id') (index state),
                       contents := (contents state)(id' := None),
                       handles := (handles state)(id' := None),
                       revision := add1 (revision state)\<rparr>"
    by (simp add: Let_def)
  from i3 False
  have "case selected state of None \<Rightarrow> True | Some i \<Rightarrow> i \<in> ids state \<and> i \<noteq> id'"
    by (auto simp: invariant3_def split: option.splits)
  with s' show ?thesis by blast
next
  case True
  let ?i = "findIndex (\<lambda>file. fileId file = id') (index state)"
  let ?k = "if ?i > 0 then ?i - 1 else ?i + 1"
  from i3 True have mem: "id' \<in> ids state"
    by (simp add: invariant3_def)
  then have "\<exists>x \<in> set (index state). fileId x = id'"
    by (auto simp: ids_def)
  from findIndex_found [OF this]
  have i0: "0 \<le> ?i" and il: "nat ?i < length (index state)"
    and ii: "fileId (index state ! nat ?i) = id'"
    by simp_all
  from step True obtain entry where at: "at (index state) ?k = Some entry"
    and s': "state' = state\<lparr>selected := Some (fileId entry),
                       index := filter (\<lambda>file. fileId file \<noteq> id') (index state),
                       contents := (contents state)(id' := None),
                       handles := (handles state)(id' := None),
                       revision := add1 (revision state)\<rparr>"
    by (cases "at (index state) ?k") (simp_all add: Let_def)
  from at_Some [OF at] have k0: "0 \<le> ?k" and kl: "nat ?k < length (index state)"
    and entry: "entry = index state ! nat ?k"
    by simp_all
  have "?k \<noteq> ?i" by simp
  from nat_neq [OF k0 i0 this] have kn: "nat ?k \<noteq> nat ?i" .
  from i2 have "distinct (map fileId (index state))"
    by (simp add: invariant2_def)
  from neighbour_id [OF this il kl kn]
  have "fileId (index state ! nat ?k) \<noteq> fileId (index state ! nat ?i)" .
  with ii entry have "fileId entry \<noteq> id'" by simp
  moreover from kl entry have "fileId entry \<in> ids state"
    by (simp add: ids_def)
  ultimately
  have "case Some (fileId entry) of None \<Rightarrow> True | Some i \<Rightarrow> i \<in> ids state \<and> i \<noteq> id'"
    by simp
  with s' show ?thesis by blast
qed

subsection \<open>rename\<close>

text \<open>What \<open>rename\<close> of an id of \<open>index\<close> returns: the record at the id's position is replaced.\<close>

lemma rename_result:
  assumes mem: "id' \<in> ids state"
  shows "\<exists>n. n < length (index state) \<and> fileId (index state ! n) = id'
           \<and> filesReducer state (Rename id' to newHandle) =
               Inr (state\<lparr>index := (index state)[n := \<lparr>fileId = id', name = to\<rparr>],
                          handles := (handles state)(id' \<mapsto> newHandle)\<rparr>)"
proof -
  let ?n = "nat (findIndex (\<lambda>file. fileId file = id') (index state))"
  from renamed_index [OF mem]
  have "splice1 (index state) (findIndex (\<lambda>file. fileId file = id') (index state))
           \<lparr>fileId = id', name = to\<rparr> = (index state)[?n := \<lparr>fileId = id', name = to\<rparr>]"
    and "?n < length (index state)" and "fileId (index state ! ?n) = id'"
    by simp_all
  then show ?thesis by (intro exI [of _ ?n]) (simp add: Let_def)
qed

lemma renamed_wellFormed:
  assumes wf: "wellFormed state"
    and nl: "n < length (index state)" and nid: "fileId (index state ! n) = id'"
  shows "wellFormed (state\<lparr>index := (index state)[n := \<lparr>fileId = id', name = to\<rparr>],
                           handles := (handles state)(id' \<mapsto> newHandle)\<rparr>)"
    (is "wellFormed ?s'")
proof -
  have m: "map fileId ((index state)[n := \<lparr>fileId = id', name = to\<rparr>]) = map fileId (index state)"
    using ids_update [OF nl nid] .
  have ids': "ids ?s' = ids state"
    using m by (simp add: ids_def flip: set_map)
  from nl nid have mem: "id' \<in> ids state"
    by (auto simp: ids_def)
  have i1: "invariant1 ?s'"
    using wf mem unfolding wellFormed_def invariant1_def ids' by auto
  have i2: "invariant2 ?s'"
    using wf m by (simp add: wellFormed_def invariant2_def)
  have i3: "invariant3 ?s'"
    using wf unfolding wellFormed_def invariant3_def ids' by simp
  have b: "idsBelowNext ?s'"
    using wf unfolding wellFormed_def idsBelowNext_def ids' by simp
  from i1 i2 i3 b show ?thesis by (simp add: wellFormed_def)
qed

lemma renamed_invariant4:
  assumes i2: "invariant2 state" and old4: "invariant4 state"
    and nl: "n < length (index state)" and nid: "fileId (index state ! n) = id'"
    and disc: "settingsDiscipline state (Rename id' to newHandle)"
  shows "invariant4 (state\<lparr>index := (index state)[n := \<lparr>fileId = id', name = to\<rparr>],
                           handles := (handles state)(id' \<mapsto> newHandle)\<rparr>)"
    (is "invariant4 ?s'")
proof -
  define new where "new = \<lparr>fileId = id', name = to\<rparr>"
  from old4 have old: "length (filter isSettingsFile (index state)) \<le> 1"
    and oldh: "\<forall>file \<in> set (index state).
                 isSettingsFile file \<longrightarrow> handleOf state (fileId file) = None"
    by (auto simp: invariant4_def)
  from i2 have dist: "distinct (map fileId (index state))"
    by (simp add: invariant2_def)
  have others: "fileId (index state ! j) \<noteq> id'" if "j < length (index state)" "j \<noteq> n" for j
    using neighbour_id [OF dist nl that] nid by simp
  have count: "length (filter isSettingsFile ((index state)[n := new])) \<le> 1"
  proof (cases "to = SETTINGS_FILE_NAME")
    case True
    with disc have "\<forall>file \<in> set (index state). isSettingsFile file \<longrightarrow> fileId file = id'"
      by simp
    with others
    have "\<forall>j < length (index state). j \<noteq> n \<longrightarrow> \<not> isSettingsFile (index state ! j)"
      by (metis nth_mem)
    then show ?thesis by (rule filter_update_single)
  next
    case False
    then have "\<not> isSettingsFile new" by (simp add: new_def isSettingsFile_def)
    from filter_update_le [of isSettingsFile new "index state" n] this old
    show ?thesis by linarith
  qed
  have hs: "handleOf ?s' (fileId entry) = None"
    if f: "entry \<in> set ((index state)[n := new])" and sf: "isSettingsFile entry" for entry
  proof -
    from f obtain j where j: "j < length (index state)"
      and fj: "entry = (index state)[n := new] ! j"
      by (auto simp: in_set_conv_nth)
    show ?thesis
    proof (cases "j = n")
      case True
      with j fj have en: "entry = new" by simp
      with sf have "to = SETTINGS_FILE_NAME" by (simp add: new_def isSettingsFile_def)
      with disc have "newHandle = None" by simp
      with en show ?thesis by (simp add: handleOf_def new_def)
    next
      case False
      with j fj have fo: "entry = index state ! j" by simp
      with others [OF j False] have "fileId entry \<noteq> id'" by simp
      moreover from fo j sf oldh have "handleOf state (fileId entry) = None" by simp
      ultimately show ?thesis by (simp add: handleOf_def)
    qed
  qed
  from count hs show ?thesis by (simp add: invariant4_def new_def)
qed

subsection \<open>One transition\<close>

lemma step_wellFormed:
  assumes wf: "wellFormed state" and safe: "\<bar>nextId state\<bar> < 2 ^ 53"
    and ok: "precondition state action"
    and step: "filesReducer state action = Inr state'"
  shows "wellFormed state' \<and> nextId state \<le> nextId state' \<and> nextId state' \<le> nextId state + 1"
proof (cases action)
  case (Add handle name' content)
  from safe have n: "add1 (nextId state) = nextId state + 1"
    by (rule add1_exact)
  from step have s': "state' = state\<lparr>selected := Some (nextId state),
                  index := index state @ [\<lparr>fileId = nextId state, name = name'\<rparr>],
                  handles := (handles state)(nextId state \<mapsto> handle),
                  contents := (contents state)(nextId state \<mapsto> content),
                  nextId := add1 (nextId state),
                  revision := add1 (revision state)\<rparr>"
    unfolding Add add_result by (simp only: sum.inject)
  from add_wellFormed [OF wf safe] have "wellFormed state'"
    unfolding s' .
  moreover have "nextId state' = nextId state + 1" by (simp add: s' n)
  ultimately show ?thesis by simp
next
  case (Change id' content)
  from ok have mem: "id' \<in> ids state" by (simp add: Change)
  from step have s': "state' = state\<lparr>contents := (contents state)(id' \<mapsto> content),
                           revision := add1 (revision state)\<rparr>"
    by (simp add: Change)
  from change_wellFormed [OF wf mem] have "wellFormed state'"
    unfolding s' .
  moreover have "nextId state' = nextId state" by (simp add: s')
  ultimately show ?thesis by simp
next
  case (Rename id' to newHandle)
  from ok have "id' \<in> ids state" by (simp add: Rename)
  from rename_result [OF this]
  obtain n where nl: "n < length (index state)" and nid: "fileId (index state ! n) = id'"
    and r: "filesReducer state (Rename id' to newHandle) =
               Inr (state\<lparr>index := (index state)[n := \<lparr>fileId = id', name = to\<rparr>],
                          handles := (handles state)(id' \<mapsto> newHandle)\<rparr>)"
    by blast
  from step have "filesReducer state (Rename id' to newHandle) = Inr state'"
    by (simp only: Rename)
  with r have s': "state' = state\<lparr>index := (index state)[n := \<lparr>fileId = id', name = to\<rparr>],
                          handles := (handles state)(id' \<mapsto> newHandle)\<rparr>"
    by (simp only: sum.inject)
  from renamed_wellFormed [OF wf nl nid] have "wellFormed state'"
    unfolding s' .
  moreover have "nextId state' = nextId state" by (simp add: s')
  ultimately show ?thesis by simp
next
  case (Remove id')
  from wf have "invariant2 state" and "invariant3 state"
    by (simp_all add: wellFormed_def)
  moreover from step have "filesReducer state (Remove id') = Inr state'"
    by (simp only: Remove)
  ultimately obtain selected' where s': "state' = state\<lparr>selected := selected',
                       index := filter (\<lambda>file. fileId file \<noteq> id') (index state),
                       contents := (contents state)(id' := None),
                       handles := (handles state)(id' := None),
                       revision := add1 (revision state)\<rparr>"
    and sel: "case selected' of None \<Rightarrow> True | Some i \<Rightarrow> i \<in> ids state \<and> i \<noteq> id'"
    using remove_result by blast
  from removed_wellFormed [OF wf sel] have "wellFormed state'"
    unfolding s' .
  moreover have "nextId state' = nextId state" by (simp add: s')
  ultimately show ?thesis by simp
next
  case (SelectFile id')
  from ok have mem: "id' \<in> ids state" by (simp add: SelectFile)
  from step have s': "state' = state\<lparr>selected := Some id'\<rparr>"
    by (simp add: SelectFile)
  from selectFile_wellFormed [OF wf mem] have "wellFormed state'"
    unfolding s' .
  moreover have "nextId state' = nextId state" by (simp add: s')
  ultimately show ?thesis by simp
next
  case (SelectFileByName name')
  from step have s': "state' = state\<lparr>selected :=
            map_option fileId (find_first (\<lambda>file. name file = name') (index state))\<rparr>"
    by (simp add: SelectFileByName)
  from selectFileByName_wellFormed [OF wf] have "wellFormed state'"
    unfolding s' .
  moreover have "nextId state' = nextId state" by (simp add: s')
  ultimately show ?thesis by simp
qed

lemma step_invariant4:
  assumes wf: "wellFormed state" and old4: "invariant4 state"
    and ok: "precondition state action" and disc: "settingsDiscipline state action"
    and step: "filesReducer state action = Inr state'"
  shows "invariant4 state'"
proof (cases action)
  case (Add handle name' content)
  from wf have below: "idsBelowNext state" by (simp add: wellFormed_def)
  from disc have d: "settingsDiscipline state (Add handle name' content)"
    by (simp only: Add)
  from step have s': "state' = state\<lparr>selected := Some (nextId state),
                  index := index state @ [\<lparr>fileId = nextId state, name = name'\<rparr>],
                  handles := (handles state)(nextId state \<mapsto> handle),
                  contents := (contents state)(nextId state \<mapsto> content),
                  nextId := add1 (nextId state),
                  revision := add1 (revision state)\<rparr>"
    unfolding Add add_result by (simp only: sum.inject)
  from add_invariant4 [OF below old4 d] show ?thesis
    unfolding s' .
next
  case (Change id' content)
  from step have "index state' = index state" and "handles state' = handles state"
    by (auto simp: Change)
  from invariant4_frame [OF this] old4 show ?thesis by simp
next
  case (Rename id' to newHandle)
  from ok have "id' \<in> ids state" by (simp add: Rename)
  from rename_result [OF this]
  obtain n where nl: "n < length (index state)" and nid: "fileId (index state ! n) = id'"
    and r: "filesReducer state (Rename id' to newHandle) =
               Inr (state\<lparr>index := (index state)[n := \<lparr>fileId = id', name = to\<rparr>],
                          handles := (handles state)(id' \<mapsto> newHandle)\<rparr>)"
    by blast
  from wf have i2: "invariant2 state" by (simp add: wellFormed_def)
  from step have "filesReducer state (Rename id' to newHandle) = Inr state'"
    by (simp only: Rename)
  with r have s': "state' = state\<lparr>index := (index state)[n := \<lparr>fileId = id', name = to\<rparr>],
                          handles := (handles state)(id' \<mapsto> newHandle)\<rparr>"
    by (simp only: sum.inject)
  from disc have d: "settingsDiscipline state (Rename id' to newHandle)"
    by (simp only: Rename)
  from renamed_invariant4 [OF i2 old4 nl nid d] show ?thesis
    unfolding s' .
next
  case (Remove id')
  from wf have "invariant2 state" and "invariant3 state"
    by (simp_all add: wellFormed_def)
  moreover from step have "filesReducer state (Remove id') = Inr state'"
    by (simp only: Remove)
  ultimately obtain selected' where s': "state' = state\<lparr>selected := selected',
                       index := filter (\<lambda>file. fileId file \<noteq> id') (index state),
                       contents := (contents state)(id' := None),
                       handles := (handles state)(id' := None),
                       revision := add1 (revision state)\<rparr>"
    using remove_result by blast
  from removed_invariant4 [OF old4] show ?thesis
    unfolding s' .
next
  case (SelectFile id')
  from step have "index state' = index state" and "handles state' = handles state"
    by (auto simp: SelectFile)
  from invariant4_frame [OF this] old4 show ?thesis by simp
next
  case (SelectFileByName name')
  from step have "index state' = index state" and "handles state' = handles state"
    by (auto simp: SelectFileByName)
  from invariant4_frame [OF this] old4 show ?thesis by simp
qed

subsection \<open>A sequence of transitions\<close>

lemma wellFormed_initialState: "wellFormed initialState"
  by (simp add: wellFormed_def invariant1_def invariant2_def invariant3_def idsBelowNext_def
      ids_def initialState_def)

lemma invariant4_initialState: "invariant4 initialState"
  by (simp add: invariant4_def initialState_def)

lemma wellFormed_states:
  "wellFormed state \<Longrightarrow> 0 \<le> nextId state \<Longrightarrow>
   nextId state + int (length actions) \<le> 2 ^ 53 \<Longrightarrow>
   admissible precondition state actions \<Longrightarrow>
     \<forall>state' \<in> set (states state actions). wellFormed state'"
proof (induction actions arbitrary: state)
  case Nil
  then show ?case by simp
next
  case (Cons action actions)
  show ?case
  proof (cases "filesReducer state action")
    case (Inl e)
    then show ?thesis by simp
  next
    case (Inr state')
    from Cons.prems have safe: "\<bar>nextId state\<bar> < 2 ^ 53" by simp
    from Cons.prems have ok: "precondition state action" by simp
    from step_wellFormed [OF Cons.prems(1) safe ok Inr]
    have wf': "wellFormed state'" and lo: "nextId state \<le> nextId state'"
      and hi: "nextId state' \<le> nextId state + 1"
      by simp_all
    from lo Cons.prems have "0 \<le> nextId state'" by simp
    moreover from hi Cons.prems have "nextId state' + int (length actions) \<le> 2 ^ 53" by simp
    moreover from Cons.prems Inr have "admissible precondition state' actions" by simp
    ultimately have "\<forall>s \<in> set (states state' actions). wellFormed s"
      using wf' by (intro Cons.IH)
    with wf' Inr show ?thesis by simp
  qed
qed

lemma invariant4_states:
  "wellFormed state \<Longrightarrow> invariant4 state \<Longrightarrow> 0 \<le> nextId state \<Longrightarrow>
   nextId state + int (length actions) \<le> 2 ^ 53 \<Longrightarrow>
   admissible precondition state actions \<Longrightarrow> admissible settingsDiscipline state actions \<Longrightarrow>
     \<forall>state' \<in> set (states state actions). invariant4 state'"
proof (induction actions arbitrary: state)
  case Nil
  then show ?case by simp
next
  case (Cons action actions)
  show ?case
  proof (cases "filesReducer state action")
    case (Inl e)
    then show ?thesis by simp
  next
    case (Inr state')
    from Cons.prems have safe: "\<bar>nextId state\<bar> < 2 ^ 53" by simp
    from Cons.prems have ok: "precondition state action"
      and disc: "settingsDiscipline state action" by simp_all
    from step_wellFormed [OF Cons.prems(1) safe ok Inr]
    have wf': "wellFormed state'" and lo: "nextId state \<le> nextId state'"
      and hi: "nextId state' \<le> nextId state + 1"
      by simp_all
    from step_invariant4 [OF Cons.prems(1,2) ok disc Inr] have i4: "invariant4 state'" .
    from lo Cons.prems have "0 \<le> nextId state'" by simp
    moreover from hi Cons.prems have "nextId state' + int (length actions) \<le> 2 ^ 53" by simp
    moreover from Cons.prems Inr have "admissible precondition state' actions"
      and "admissible settingsDiscipline state' actions" by simp_all
    ultimately have "\<forall>s \<in> set (states state' actions). invariant4 s"
      using wf' i4 by (intro Cons.IH)
    with i4 Inr show ?thesis by simp
  qed
qed

text \<open>
  Claim C1, amended. Start from the initial state and apply fewer than \<open>2^53\<close> actions,
  each \<open>change\<close>, \<open>rename\<close>, \<open>remove\<close> and \<open>selectFile\<close> naming an id of \<open>index\<close>. Then
  invariants 1, 2 and 3 hold in every state a transition returns. Invariant 4 holds in
  all these states too when every \<open>add\<close> or \<open>rename\<close> that gives a file the reserved
  name carries no handle and finds no other file of that name.
\<close>

theorem invariants_after_every_transition:
  assumes "admissible precondition initialState actions" and "length actions < 2 ^ 53"
  shows "(\<forall>state \<in> set (states initialState actions).
            invariant1 state \<and> invariant2 state \<and> invariant3 state)
       \<and> (admissible settingsDiscipline initialState actions \<longrightarrow>
            (\<forall>state \<in> set (states initialState actions). invariant4 state))"
proof -
  have z: "0 \<le> nextId initialState" by (simp add: initialState_def)
  from assms(2) have "int (length actions) < 2 ^ 53"
    by (metis of_nat_less_iff of_nat_numeral of_nat_power)
  then have b: "nextId initialState + int (length actions) \<le> 2 ^ 53"
    by (simp add: initialState_def)
  from wellFormed_states [OF wellFormed_initialState z b assms(1)]
  have "\<forall>state \<in> set (states initialState actions).
          invariant1 state \<and> invariant2 state \<and> invariant3 state"
    by (simp add: wellFormed_def)
  moreover
  from invariant4_states [OF wellFormed_initialState invariant4_initialState z b assms(1)]
  have "admissible settingsDiscipline initialState actions \<longrightarrow>
          (\<forall>state \<in> set (states initialState actions). invariant4 state)"
    by blast
  ultimately show ?thesis by blast
qed

theorem invariants_after_every_transition_witness:
  "admissible precondition initialState
     [Add (Some 0) ''main.py'' ''import os'', Add None ''knot.json'' ''{}'',
      SelectFile 0, Change 0 ''import sys'', Rename 0 ''lib.py'' (Some 1), Remove 1]
   \<and> admissible settingsDiscipline initialState
     [Add (Some 0) ''main.py'' ''import os'', Add None ''knot.json'' ''{}'',
      SelectFile 0, Change 0 ''import sys'', Rename 0 ''lib.py'' (Some 1), Remove 1]
   \<and> list_all invariants
       (states initialState
          [Add (Some 0) ''main.py'' ''import os'', Add None ''knot.json'' ''{}'',
           SelectFile 0, Change 0 ''import sys'', Rename 0 ''lib.py'' (Some 1), Remove 1])
   \<and> length
       (states initialState
          [Add (Some 0) ''main.py'' ''import os'', Add None ''knot.json'' ''{}'',
           SelectFile 0, Change 0 ''import sys'', Rename 0 ''lib.py'' (Some 1), Remove 1]) = 6"
proof -
  let ?actions = "[Add (Some 0) ''main.py'' ''import os'', Add None ''knot.json'' ''{}'',
      SelectFile 0, Change 0 ''import sys'', Rename 0 ''lib.py'' (Some 1), Remove 1]"
  have a: "admissible precondition initialState ?actions"
    by (simp add: initialState_def ids_def splice1_def Let_def add1_exact)
  have d: "admissible settingsDiscipline initialState ?actions"
    by (simp add: initialState_def ids_def isSettingsFile_def SETTINGS_FILE_NAME_def
        splice1_def Let_def add1_exact)
  have n: "length ?actions < 2 ^ 53" by simp
  have l: "length (states initialState ?actions) = 6"
    by (simp add: initialState_def splice1_def Let_def add1_exact)
  from invariants_after_every_transition [OF a n] d
  have "list_all invariants (states initialState ?actions)"
    unfolding list_all_iff invariants_def by blast
  with a d l show ?thesis by (simp only: simp_thms)
qed

text \<open>
  The reducer does not look at names: adding \<open>knot.json\<close> twice meets the precondition
  of every action and gives a session with two files of the reserved name.
\<close>

theorem reserved_name_counterexample:
  "admissible precondition initialState
     [Add None ''knot.json'' ''{}'', Add None ''knot.json'' ''{}'']
   \<and> \<not> invariants
        (last (states initialState
           [Add None ''knot.json'' ''{}'', Add None ''knot.json'' ''{}'']))"
  by (simp add: initialState_def invariants_def invariant4_def isSettingsFile_def
      SETTINGS_FILE_NAME_def add1_exact)

text \<open>
  The bound on the number of actions is needed: \<open>saturatedSession\<close> is what \<open>2^53\<close> times
  \<open>add\<close> and \<open>remove\<close> of the added file lead to, and there two more \<open>add\<close>s give two
  files the id \<open>2^53\<close>.
\<close>

lemma saturated_adds_repeat_id:
  "admissible precondition saturatedSession [Add None ''a.py'' ''x'', Add None ''b.py'' ''x'']
   \<and> map fileId (index (last (states saturatedSession
          [Add None ''a.py'' ''x'', Add None ''b.py'' ''x'']))) = [2 ^ 53, 2 ^ 53]
   \<and> \<not> invariant2 (last (states saturatedSession
          [Add None ''a.py'' ''x'', Add None ''b.py'' ''x'']))"
proof -
  have a: "admissible precondition saturatedSession
      [Add None ''a.py'' ''x'', Add None ''b.py'' ''x'']"
    by (simp add: Let_def)
  have st: "states saturatedSession [Add None ''a.py'' ''x'', Add None ''b.py'' ''x''] =
      [\<lparr>selected = Some (2 ^ 53), index = [\<lparr>fileId = 2 ^ 53, name = ''a.py''\<rparr>],
        handles = [2 ^ 53 \<mapsto> None], contents = [2 ^ 53 \<mapsto> ''x''],
        revision = 2 ^ 53, nextId = 2 ^ 53\<rparr>,
       \<lparr>selected = Some (2 ^ 53),
        index = [\<lparr>fileId = 2 ^ 53, name = ''a.py''\<rparr>, \<lparr>fileId = 2 ^ 53, name = ''b.py''\<rparr>],
        handles = [2 ^ 53 \<mapsto> None], contents = [2 ^ 53 \<mapsto> ''x''],
        revision = 2 ^ 53, nextId = 2 ^ 53\<rparr>]"
    unfolding saturatedSession_def states.simps add_result
    by (simp only: add1_stuck FilesState.simps append_Nil append_Cons sum.case fun_upd_upd)
  have "map fileId (index (last (states saturatedSession
          [Add None ''a.py'' ''x'', Add None ''b.py'' ''x'']))) = [2 ^ 53, 2 ^ 53]"
    unfolding st by simp
  moreover have "\<not> invariant2 (last (states saturatedSession
          [Add None ''a.py'' ''x'', Add None ''b.py'' ''x'']))"
    unfolding st by (simp add: invariant2_def)
  ultimately show ?thesis using a by blast
qed

subsection \<open>Actions on an id that is not in the index\<close>

text \<open>
  Claim C4, amended. In a state that satisfies invariants 1 to 4, for an id that is not
  in \<open>index\<close>: \<open>remove\<close> only adds one to \<open>revision\<close>, and the result satisfies
  invariants 1 to 4; \<open>change\<close> stores the content under the unknown id, so the result
  satisfies invariants 2, 3 and 4 but not invariant 1.
\<close>

theorem unknown_id_transitions:
  assumes "invariants state" and "id' \<notin> ids state"
  shows "filesReducer state (Remove id') = Inr (state\<lparr>revision := add1 (revision state)\<rparr>)
       \<and> invariants (state\<lparr>revision := add1 (revision state)\<rparr>)
       \<and> filesReducer state (Change id' content) =
           Inr (state\<lparr>contents := (contents state)(id' \<mapsto> content),
                      revision := add1 (revision state)\<rparr>)
       \<and> \<not> invariant1 (state\<lparr>contents := (contents state)(id' \<mapsto> content),
                               revision := add1 (revision state)\<rparr>)
       \<and> invariant2 (state\<lparr>contents := (contents state)(id' \<mapsto> content),
                             revision := add1 (revision state)\<rparr>)
       \<and> invariant3 (state\<lparr>contents := (contents state)(id' \<mapsto> content),
                             revision := add1 (revision state)\<rparr>)
       \<and> invariant4 (state\<lparr>contents := (contents state)(id' \<mapsto> content),
                             revision := add1 (revision state)\<rparr>)"
proof -
  from assms have sel: "selected state \<noteq> Some id'"
    by (auto simp: invariants_def invariant3_def)
  from assms have "id' \<notin> dom (contents state)" and "id' \<notin> dom (handles state)"
    by (auto simp: invariants_def invariant1_def)
  then have maps: "(contents state)(id' := None) = contents state"
    "(handles state)(id' := None) = handles state"
    by (simp_all add: unknown_id_map)
  from assms(2) have flt: "filter (\<lambda>file. fileId file \<noteq> id') (index state) = index state"
    by (simp add: ids_def unknown_id_filter)
  have r: "filesReducer state (Remove id') = Inr (state\<lparr>revision := add1 (revision state)\<rparr>)"
    using sel by (simp add: Let_def maps flt)
  have ri: "invariants (state\<lparr>revision := add1 (revision state)\<rparr>)"
    using assms(1)
    by (simp add: invariants_def invariant1_def invariant2_def invariant3_def invariant4_def
        ids_def handleOf_def split: option.splits)
  have c1: "\<not> invariant1 (state\<lparr>contents := (contents state)(id' \<mapsto> content),
                               revision := add1 (revision state)\<rparr>)"
    using assms(2) by (auto simp: invariant1_def ids_def)
  have c2: "invariant2 (state\<lparr>contents := (contents state)(id' \<mapsto> content),
                             revision := add1 (revision state)\<rparr>)"
    and c3: "invariant3 (state\<lparr>contents := (contents state)(id' \<mapsto> content),
                             revision := add1 (revision state)\<rparr>)"
    and c4: "invariant4 (state\<lparr>contents := (contents state)(id' \<mapsto> content),
                             revision := add1 (revision state)\<rparr>)"
    using assms(1)
    by (simp_all add: invariants_def invariant2_def invariant3_def invariant4_def
        ids_def handleOf_def split: option.splits)
  from r ri c1 c2 c3 c4 show ?thesis by simp
qed

lemma invariants_mainSession: "invariants mainSession"
  by (simp add: mainSession_def invariants_def invariant1_def invariant2_def invariant3_def
      invariant4_def ids_def isSettingsFile_def SETTINGS_FILE_NAME_def)

theorem unknown_id_transitions_witness:
  "invariants mainSession \<and> 7 \<notin> ids mainSession
   \<and> filesReducer mainSession (Remove 7) = Inr (mainSession\<lparr>revision := 2\<rparr>)
   \<and> invariants (mainSession\<lparr>revision := 2\<rparr>)
   \<and> filesReducer mainSession (Change 7 ''x'') =
        Inr (mainSession\<lparr>contents := [0 \<mapsto> ''import os'', 7 \<mapsto> ''x''], revision := 2\<rparr>)
   \<and> \<not> invariant1 (mainSession\<lparr>contents := [0 \<mapsto> ''import os'', 7 \<mapsto> ''x''], revision := 2\<rparr>)"
proof -
  have n: "7 \<notin> ids mainSession"
    by (simp add: mainSession_def ids_def)
  from unknown_id_transitions [OF invariants_mainSession n, of "''x''"]
    invariants_mainSession n
  show ?thesis by (simp add: mainSession_def add1_exact)
qed

text \<open>\<open>change\<close> of id 0 in the initial state leaves a content without a record.\<close>

theorem change_unknown_id_counterexample:
  "invariants initialState \<and> 0 \<notin> ids initialState
   \<and> filesReducer initialState (Change 0 ''x'') =
       Inr \<lparr>selected = None, index = [], handles = Map.empty, contents = [0 \<mapsto> ''x''],
            revision = 1, nextId = 0\<rparr>
   \<and> \<not> invariants
        \<lparr>selected = None, index = [], handles = Map.empty, contents = [0 \<mapsto> ''x''],
         revision = 1, nextId = 0\<rparr>"
  by (simp add: initialState_def invariants_def invariant1_def invariant2_def invariant3_def
      invariant4_def ids_def add1_exact)

section \<open>Applying configuration\<close>

lemma shownError_snoc:
  "shownError (es @ [SetError x]) = x"
  by (simp add: shownError_def)

lemma dispatched_append: "dispatched (es @ es') = dispatched es @ dispatched es'"
  by (induction es rule: dispatched.induct) auto

lemma updateOptions_effects:
  "dispatched (events (updateOptions env workspace content w)) = dispatched (events w)"
  "nextHandle (updateOptions env workspace content w) = nextHandle w"
  by (auto simp: updateOptions_def setError_def emit_def Let_def dispatched_append
      split: sum.splits option.splits)

lemma updateOptions_events:
  "\<exists>es. events (updateOptions env workspace content w) = events w @ es \<and> dispatched es = []"
  by (auto simp: updateOptions_def setError_def emit_def Let_def
      split: sum.splits option.splits)

text \<open>
  Claim C7. When \<open>JSON.parse\<close> throws on the configuration text, \<open>updateOptions\<close> does
  one thing: it reports the label \<open>Failed to update 'knot.json' options: \<close> followed
  by the formatted error. It makes no call on the engine. When the text parses and
  the engine accepts the settings, \<open>updateOptions\<close> passes them to the engine and then
  clears the error shown.
\<close>

theorem updateOptions_parse_failure:
  "(jsonParse env (case content of None \<Rightarrow> DEFAULT_SETTINGS | Some c \<Rightarrow> c) = Inl e \<longrightarrow>
      events (updateOptions env workspace content w) =
        events w @ [SetError (Some (optionsErrorLabel @ formatError e))]
      \<and> shownError (events (updateOptions env workspace content w)) =
          Some (optionsErrorLabel @ formatError e))
   \<and> (jsonParse env (case content of None \<Rightarrow> DEFAULT_SETTINGS | Some c \<Rightarrow> c) = Inr settings
        \<and> engineUpdateOptions env settings = None \<longrightarrow>
      events (updateOptions env True content w) =
        events w @ [UpdateOptions settings, SetError None]
      \<and> shownError (events (updateOptions env True content w)) = None)"
  by (auto simp: updateOptions_def setError_def emit_def shownError_def Let_def)

theorem updateOptions_parse_failure_witness:
  "jsonParse stubEnv ''{}'' = Inr (Json ''{}'')
   \<and> engineUpdateOptions stubEnv (Json ''{}'') = None
   \<and> events (updateOptions stubEnv True (Some ''{}'') freshWorld) =
       [UpdateOptions (Json ''{}''), SetError None]
   \<and> jsonParse stubEnv ''{'' = Inl (ErrorObject ''Error: Unexpected end of JSON input'')
   \<and> events (updateOptions stubEnv True (Some ''{'')
               (updateOptions stubEnv True (Some ''{}'') freshWorld)) =
       [UpdateOptions (Json ''{}''), SetError None,
        SetError (Some ''Failed to update 'knot.json' options: Unexpected end of JSON input'')]
   \<and> shownError (events (updateOptions stubEnv True (Some ''{'')
               (updateOptions stubEnv True (Some ''{}'') freshWorld))) =
       Some ''Failed to update 'knot.json' options: Unexpected end of JSON input''"
proof -
  have p: "jsonParse stubEnv ''{}'' = Inr (Json ''{}'')"
    "engineUpdateOptions stubEnv (Json ''{}'') = None"
    "jsonParse stubEnv ''{'' = Inl (ErrorObject ''Error: Unexpected end of JSON input'')"
    by (simp_all add: stubEnv_def)
  have f: "formatError (ErrorObject ''Error: Unexpected end of JSON input'') =
             ''Unexpected end of JSON input''"
    by (simp add: formatError_def errorMessage_def startsWith_def)
  from updateOptions_parse_failure
    [of stubEnv "Some ''{}''" "ErrorObject ''x''" True freshWorld "Json ''{}''"] p
  have ok: "events (updateOptions stubEnv True (Some ''{}'') freshWorld) =
       [UpdateOptions (Json ''{}''), SetError None]"
    by (simp add: freshWorld_def)
  from updateOptions_parse_failure
    [of stubEnv "Some ''{''" "ErrorObject ''Error: Unexpected end of JSON input''" True
      "updateOptions stubEnv True (Some ''{}'') freshWorld" "Json ''{}''"] p
  have both: "events (updateOptions stubEnv True (Some ''{'')
               (updateOptions stubEnv True (Some ''{}'') freshWorld)) =
       events (updateOptions stubEnv True (Some ''{}'') freshWorld) @
       [SetError (Some (optionsErrorLabel @ ''Unexpected end of JSON input''))]
     \<and> shownError (events (updateOptions stubEnv True (Some ''{'')
               (updateOptions stubEnv True (Some ''{}'') freshWorld))) =
       Some (optionsErrorLabel @ ''Unexpected end of JSON input'')"
    by (simp add: f shownError_snoc)
  from both have bad: "events (updateOptions stubEnv True (Some ''{'')
               (updateOptions stubEnv True (Some ''{}'') freshWorld)) =
       events (updateOptions stubEnv True (Some ''{}'') freshWorld) @
       [SetError (Some (optionsErrorLabel @ ''Unexpected end of JSON input''))]"
    by (rule conjunct1)
  from both have shown: "shownError (events (updateOptions stubEnv True (Some ''{'')
               (updateOptions stubEnv True (Some ''{}'') freshWorld))) =
       Some (optionsErrorLabel @ ''Unexpected end of JSON input'')"
    by (rule conjunct2)
  from p ok bad shown show ?thesis
    by (simp add: optionsErrorLabel_def)
qed

section \<open>Failure of a secondary tool\<close>

text \<open>
  Claim C6. Let a file be selected with a content, a handle the engine can check, and
  let \<open>checkFile\<close> return diagnostics. If the selected tool is the syntax tree or the
  tokens and its query throws, the result carries those diagnostics, no error, and
  the message of the thrown value as the error of the secondary slot.
\<close>

theorem secondary_failure_keeps_diagnostics:
  assumes "selected state = Some file"
    and "deferredContent = Some content"
    and "handleOf state file = Some handle"
    and "isPythonFile env handle"
    and "checkFile env handle = Inr ds"
    and "(tool = AST \<and> parsed env handle = Inl e) \<or> (tool = Tokens \<and> tokens env handle = Inl e)"
  shows "useCheckResult env state deferredContent (Some tool) =
           \<lparr>diagnostics = ds, error = None, secondary = Some (StatusError (errorMessage e))\<rparr>"
  using assms by (auto simp: useCheckResult_def)

theorem secondary_failure_keeps_diagnostics_witness:
  "selected mainSession = Some 0 \<and> handleOf mainSession 0 = Some 0
   \<and> isPythonFile stubEnv 0 \<and> checkFile stubEnv 0 = Inr [''unresolved-import'']
   \<and> parsed stubEnv 0 = Inl (ErrorObject ''ast failed'')
   \<and> useCheckResult stubEnv mainSession (Some ''import os'') (Some AST) =
       \<lparr>diagnostics = [''unresolved-import''], error = None,
        secondary = Some (StatusError ''ast failed'')\<rparr>"
proof -
  have h: "selected mainSession = Some 0" "handleOf mainSession 0 = Some 0"
    "isPythonFile stubEnv 0" "checkFile stubEnv 0 = Inr [''unresolved-import'']"
    "parsed stubEnv 0 = Inl (ErrorObject ''ast failed'')"
    by (simp_all add: mainSession_def handleOf_def stubEnv_def)
  from secondary_failure_keeps_diagnostics
    [of mainSession 0 "Some ''import os''" "''import os''" 0 stubEnv "[''unresolved-import'']"
      AST "ErrorObject ''ast failed''"] h
  show ?thesis by (simp add: errorMessage_def)
qed

text \<open>The third tool, \<open>Run\<close>, calls nothing that can throw.\<close>

theorem run_tool_never_fails:
  assumes "selected state = Some file"
    and "deferredContent = Some content"
    and "handleOf state file = Some handle"
    and "isPythonFile env handle"
    and "checkFile env handle = Inr ds"
  shows "useCheckResult env state deferredContent (Some Run) =
           \<lparr>diagnostics = ds, error = None, secondary = Some (StatusOk '''')\<rparr>"
  using assms by (auto simp: useCheckResult_def)

section \<open>The rename scenario\<close>

lemma isArrayIndex_main: "\<not> isArrayIndex ''main.py''" "\<not> isArrayIndex ''knot.json''"
  by (simp_all add: isArrayIndex_def isDigit_def)

lemma scenario_entries:
  "objectEntries [(''main.py'', ''import os''), (''knot.json'', ''{}'')] =
     [(''main.py'', ''import os''), (''knot.json'', ''{}'')]"
  by (simp add: objectEntries_def isArrayIndex_main)

lemma scenario_start:
  "\<exists>es. events (startWorkspace env scenarioSnapshot) =
          [OpenFile ''main.py'' (Some ''import os'') 0,
           Dispatch (Add (Some 0) ''main.py'' ''import os'')] @ es @
          [Dispatch (Add None ''knot.json'' ''{}''), Dispatch (SelectFileByName ''main.py'')]
        \<and> dispatched es = []"
    and scenario_nextHandle: "nextHandle (startWorkspace env scenarioSnapshot) = 1"
proof -
  let ?w1 = "\<lparr>events = [OpenFile ''main.py'' (Some ''import os'') 0,
           Dispatch (Add (Some 0) ''main.py'' ''import os'')], nextHandle = 1\<rparr>"
  obtain es where es: "events (updateOptions env True (Some ''{}'') ?w1) = events ?w1 @ es"
    and d: "dispatched es = []"
    using updateOptions_events by blast
  have sw: "startWorkspace env scenarioSnapshot =
      dispatchFiles (SelectFileByName ''main.py'')
        (dispatchFiles (Add None ''knot.json'' ''{}'') (updateOptions env True (Some ''{}'') ?w1))"
    by (simp add: startWorkspace_def scenario_entries SETTINGS_FILE_NAME_def openFile_def
        freshWorld_def dispatchFiles_def emit_def scenarioSnapshot_def)
  from es d show "\<exists>es. events (startWorkspace env scenarioSnapshot) =
          [OpenFile ''main.py'' (Some ''import os'') 0,
           Dispatch (Add (Some 0) ''main.py'' ''import os'')] @ es @
          [Dispatch (Add None ''knot.json'' ''{}''), Dispatch (SelectFileByName ''main.py'')]
        \<and> dispatched es = []"
    by (simp add: sw dispatchFiles_def emit_def)
  show "nextHandle (startWorkspace env scenarioSnapshot) = 1"
    by (simp add: sw dispatchFiles_def emit_def updateOptions_effects)
qed

lemma scenario_restored: "restoreSession env scenarioSnapshot = Inr scenarioSession"
proof -
  from scenario_start [of env]
  have "dispatched (events (startWorkspace env scenarioSnapshot)) =
          [Add (Some 0) ''main.py'' ''import os'', Add None ''knot.json'' ''{}'',
           SelectFileByName ''main.py'']"
    by (auto simp: dispatched_append)
  then show ?thesis
    by (simp add: restoreSession_def initialState_def scenarioSession_def Let_def add1_exact)
qed

text \<open>
  Claim C5. Start the playground on the files \<open>main.py\<close> (\<open>import os\<close>) and
  \<open>knot.json\<close> (\<open>{}\<close>) with \<open>main.py\<close> current: the session holds \<open>main.py\<close> at
  position 0 under id 0 with the engine's handle 0, and it is selected. Renaming it to
  \<open>lib.py\<close> then closes handle 0, opens \<open>lib.py\<close> with the content \<open>import os\<close>, and
  only then dispatches \<open>rename\<close> with the new handle. The reducer answers with the
  record of id 0 still at position 0, now named \<open>lib.py\<close>, and the contents untouched.
\<close>

theorem rename_scenario:
  "restoreSession env scenarioSnapshot = Inr scenarioSession
   \<and> events (handleFileRenamed env scenarioSession 0 ''lib.py''
               (startWorkspace env scenarioSnapshot)) =
       events (startWorkspace env scenarioSnapshot) @
       [CloseFile 0, OpenFile ''lib.py'' (Some ''import os'') 1,
        Dispatch (Rename 0 ''lib.py'' (Some 1))]
   \<and> filesReducer scenarioSession (Rename 0 ''lib.py'' (Some 1)) =
       Inr (scenarioSession
             \<lparr>index := [\<lparr>fileId = 0, name = ''lib.py''\<rparr>, \<lparr>fileId = 1, name = ''knot.json''\<rparr>],
              handles := [0 \<mapsto> Some 1, 1 \<mapsto> None]\<rparr>)
   \<and> at (index scenarioSession) 0 = Some \<lparr>fileId = 0, name = ''main.py''\<rparr>
   \<and> contents scenarioSession 0 = Some ''import os''"
proof -
  have h: "handleOf scenarioSession 0 = Some 0" "contents scenarioSession 0 = Some ''import os''"
    by (simp_all add: scenarioSession_def handleOf_def)
  have e: "events (handleFileRenamed env scenarioSession 0 ''lib.py''
               (startWorkspace env scenarioSnapshot)) =
       events (startWorkspace env scenarioSnapshot) @
       [CloseFile 0, OpenFile ''lib.py'' (Some ''import os'') 1,
        Dispatch (Rename 0 ''lib.py'' (Some 1))]"
    by (simp add: handleFileRenamed_def h SETTINGS_FILE_NAME_def closeFile_def emit_def
        openFile_def dispatchFiles_def scenario_nextHandle)
  have r: "filesReducer scenarioSession (Rename 0 ''lib.py'' (Some 1)) =
       Inr (scenarioSession
             \<lparr>index := [\<lparr>fileId = 0, name = ''lib.py''\<rparr>, \<lparr>fileId = 1, name = ''knot.json''\<rparr>],
              handles := [0 \<mapsto> Some 1, 1 \<mapsto> None]\<rparr>)"
    by (simp add: scenarioSession_def splice1_def Let_def fun_upd_twist)
  have a: "at (index scenarioSession) 0 = Some \<lparr>fileId = 0, name = ''main.py''\<rparr>"
    by (simp add: scenarioSession_def at_def)
  from scenario_restored e r a h(2) show ?thesis by simp
qed

section \<open>Serializing and restoring a session\<close>

lemma fst_in_keys: "(a, b) \<in> set xs \<Longrightarrow> a \<in> fst ` set xs"
  by force

























end
